theory Spec2Isabelle
  imports Main
begin

section \<open>The session provider of \<^verbatim>\<open>src/contexts/AuthContext.tsx\<close>\<close>

text \<open>
  The file holds one React component, \<^verbatim>\<open>AuthProvider\<close>, and one hook, \<^verbatim>\<open>useAuth\<close>.
  The component keeps three state cells (\<^verbatim>\<open>user\<close>, \<^verbatim>\<open>session\<close>, \<^verbatim>\<open>loading\<close>), talks
  to the supabase client, and copies a Discord id from the user's metadata into the
  \<^verbatim>\<open>profiles\<close> table. The embedding passes the React state and the outside world
  explicitly: every callback of the source is a function from the state before to the
  state after, and every call the source makes on the supabase client is appended to a
  trace kept in the world.
\<close>

subsection \<open>JavaScript values\<close>

text \<open>
  The values that can sit in a metadata entry or in a column of a row. Numbers are
  integers here (no \<^verbatim>\<open>NaN\<close>, no fractions); \<open>truthy\<close> is JavaScript's
  \<^verbatim>\<open>ToBoolean\<close>, which the source applies in \<^verbatim>\<open>if (discordId)\<close> and
  \<^verbatim>\<open>!profile.discord_id\<close>.
\<close>

datatype jsval = JUndefined | JNull | JBool bool | JNum int | JStr string

fun truthy :: "jsval \<Rightarrow> bool" where
  "truthy JUndefined = False"
| "truthy JNull = False"
| "truthy (JBool b) = b"
| "truthy (JNum n) = (n \<noteq> 0)"
| "truthy (JStr s) = (s \<noteq> [])"

type_synonym jsobj = "string \<rightharpoonup> jsval"

text \<open>\<^verbatim>\<open>obj.k\<close>: a property that is not there reads as \<^verbatim>\<open>undefined\<close>.\<close>

definition get_prop :: "jsobj \<Rightarrow> string \<Rightarrow> jsval" where
  "get_prop obj k = (case obj k of None \<Rightarrow> JUndefined | Some v \<Rightarrow> v)"

text \<open>\<^verbatim>\<open>obj?.k\<close>: optional chaining on an object that may be null or undefined.\<close>

definition opt_prop :: "jsobj option \<Rightarrow> string \<Rightarrow> jsval" where
  "opt_prop ob k = (case ob of None \<Rightarrow> JUndefined | Some obj \<Rightarrow> get_prop obj k)"

subsection \<open>Users, sessions and the provider's state\<close>

text \<open>
  \<^verbatim>\<open>User\<close> and \<^verbatim>\<open>Session\<close> are the types of \<^verbatim>\<open>@supabase/supabase-js\<close>, cut
  down to a few of their fields; the source reads \<^verbatim>\<open>id\<close>, \<^verbatim>\<open>user_metadata\<close> and
  \<^verbatim>\<open>session.user\<close>. The field \<^verbatim>\<open>id\<close> is \<open>id_User\<close> (\<open>id\<close> is
  the identity function of HOL) and \<^verbatim>\<open>session.user\<close> is \<open>s_user\<close> (\<open>user\<close> is the
  provider's state cell).
\<close>

record User =
  id_User :: string
  email :: "string option"
  user_metadata :: "jsobj option"

record Session =
  access_token :: string
  s_user :: User

text \<open>The three \<^verbatim>\<open>useState\<close> cells of lines 27 to 29.\<close>

record provider =
  user :: "User option"
  session :: "Session option"
  loading :: bool

definition initial_provider :: provider where
  "initial_provider = \<lparr>user = None, session = None, loading = True\<rparr>"

subsection \<open>The supabase client\<close>

text \<open>
  The client is an external library. What the source asks of it is recorded call by
  call, with the arguments the source passes; what it answers is either an argument of
  the functions below (how a promise settles, whether a query goes through) or read
  from the table, as the library documents it for \<^verbatim>\<open>single\<close>, \<^verbatim>\<open>eq\<close> and
  \<^verbatim>\<open>update\<close>.
\<close>

datatype call =
    OnAuthStateChange nat
  | Unsubscribe nat
  | GetSession
  | AuthSignUp string string string jsobj
  | AuthSignInWithPassword string string
  | AuthSignInWithOAuth string string
  | AuthResetPasswordForEmail string string
  | AuthSignOut
  | FromSelectEqSingle string string string jsval
  | FromUpdateEq string jsobj string jsval

text \<open>
  \<open>OnAuthStateChange h\<close> registers a listener and hands back the subscription \<open>h\<close>;
  \<open>AuthSignUp email password emailRedirectTo data\<close>;
  \<open>AuthSignInWithOAuth provider redirectTo\<close>;
  \<open>AuthResetPasswordForEmail email redirectTo\<close>;
  \<open>FromSelectEqSingle table columns column value\<close> is
  \<^verbatim>\<open>from(table).select(columns).eq(column, value).single()\<close>;
  \<open>FromUpdateEq table payload column value\<close> is
  \<^verbatim>\<open>from(table).update(payload).eq(column, value)\<close>.
\<close>

record world =
  profiles :: "jsobj list"
  calls :: "call list"
  console :: "jsval list list"
  active :: "nat list"
  next_handle :: nat

text \<open>
  \<open>profiles\<close> is the table of that name, a row being an object from column names to
  values; \<open>console\<close> holds the arguments of each \<^verbatim>\<open>console.log\<close>; \<open>active\<close> are the
  subscriptions that have been registered and not released.
\<close>

definition issue :: "call \<Rightarrow> world \<Rightarrow> world" where
  "issue c w = w\<lparr>calls := calls w @ [c]\<rparr>"

text \<open>
  A promise of the client either resolves with a value or rejects. The auth calls
  resolve with \<^verbatim>\<open>{ error }\<close>, where \<^verbatim>\<open>error\<close> is null on success.
\<close>

type_synonym exn = string

datatype 'a outcome = Resolved 'a | Rejected exn

type_synonym auth_result = "string option"

text \<open>
  A query on a table can fail at the server or on the way; then its \<^verbatim>\<open>data\<close> is
  null and, for an update, nothing is written. \<open>select_ok\<close> and \<open>update_ok\<close> say
  whether the two queries of one run of a callback go through.
\<close>

record faults =
  select_ok :: bool
  update_ok :: bool

text \<open>
  \<^verbatim>\<open>from('profiles').select(col).eq(k, v).single()\<close>: \<^verbatim>\<open>data\<close> is the one row whose
  column \<open>k\<close> is \<open>v\<close>, cut down to the column \<open>col\<close>; it is null when no row or more
  than one row matches, and when the query fails.
\<close>

definition from_select_eq_single ::
    "bool \<Rightarrow> string \<Rightarrow> string \<Rightarrow> jsval \<Rightarrow> world \<Rightarrow> jsobj option \<times> world" where
  "from_select_eq_single ok col k v w =
     ((if ok then
         (case filter (\<lambda>r. r k = Some v) (profiles w) of
            [r] \<Rightarrow> Some (r |` {col})
          | _ \<Rightarrow> None)
       else None),
      issue (FromSelectEqSingle ''profiles'' col k v) w)"

text \<open>
  \<^verbatim>\<open>from('profiles').update(payload).eq(k, v)\<close>: every row whose column \<open>k\<close> is \<open>v\<close>
  takes the columns of the payload; nothing is written when the query fails.
\<close>

definition from_update_eq :: "bool \<Rightarrow> jsobj \<Rightarrow> string \<Rightarrow> jsval \<Rightarrow> world \<Rightarrow> world" where
  "from_update_eq ok payload k v w =
     issue (FromUpdateEq ''profiles'' payload k v)
       (if ok then
          w\<lparr>profiles := map (\<lambda>r. if r k = Some v then r ++ payload else r) (profiles w)\<rparr>
        else w)"

subsection \<open>\<^verbatim>\<open>useAuth\<close>, lines 18 to 24\<close>

text \<open>
  \<^verbatim>\<open>useContext(AuthContext)\<close> is the value of the nearest enclosing
  \<^verbatim>\<open>AuthContext.Provider\<close>, or the default of line 16, \<^verbatim>\<open>undefined\<close>, when there is
  none. The argument lists the values of the enclosing providers, innermost first.
  \<^verbatim>\<open>useAuth\<close> is not an \<^verbatim>\<open>async\<close> function: it returns the context or throws, as a
  value of a sum type and not as an outcome of a promise.
\<close>

definition useContext :: "'c list \<Rightarrow> 'c option" where
  "useContext enclosing = (case enclosing of [] \<Rightarrow> None | v # _ \<Rightarrow> Some v)"

definition useAuth :: "'c list \<Rightarrow> exn + 'c" where
  "useAuth enclosing =
     (case useContext enclosing of
        None \<Rightarrow> Inl ''useAuth must be used within an AuthProvider''
      | Some context \<Rightarrow> Inr context)"

subsection \<open>The effect of lines 31 to 91\<close>

text \<open>
  The callback given to \<^verbatim>\<open>onAuthStateChange\<close>, lines 33 to 56; its first argument,
  \<^verbatim>\<open>_event\<close>, is not read. The two state cells are written before the first
  \<^verbatim>\<open>await\<close>; the rest, lines 38 to 55, works on the world only and is
  \<open>onAuthStateChange_sync\<close>.
\<close>

definition onAuthStateChange_sync :: "faults \<Rightarrow> Session option \<Rightarrow> world \<Rightarrow> world" where
  "onAuthStateChange_sync f sess w =
     (case sess of
        None \<Rightarrow> w
      | Some s \<Rightarrow>
          (let discordId = opt_prop (user_metadata (s_user s)) ''provider_id'' in
           if truthy discordId then
             (let (profile, w1) =
                    from_select_eq_single (select_ok f) ''discord_id''
                      ''user_id'' (JStr (id_User (s_user s))) w
              in case profile of
                   None \<Rightarrow> w1
                 | Some p \<Rightarrow>
                     if \<not> truthy (get_prop p ''discord_id'') then
                       from_update_eq (update_ok f) [''discord_id'' \<mapsto> discordId]
                         ''user_id'' (JStr (id_User (s_user s))) w1
                     else w1)
           else w))"

definition onAuthStateChange_callback ::
    "faults \<Rightarrow> Session option \<Rightarrow> provider \<times> world \<Rightarrow> provider \<times> world" where
  "onAuthStateChange_callback f sess st =
     (case st of (p, w) \<Rightarrow>
        (p\<lparr>session := sess, user := map_option s_user sess\<rparr>,
         onAuthStateChange_sync f sess w))"

text \<open>
  The callback given to \<^verbatim>\<open>getSession().then\<close>, lines 60 to 88. It writes
  \<^verbatim>\<open>loading\<close> as well, and logs the id it has linked (the check mark that opens the
  logged text is left out). Lines 66 to 87 are \<open>getSession_sync\<close>.
\<close>

definition getSession_sync :: "faults \<Rightarrow> Session option \<Rightarrow> world \<Rightarrow> world" where
  "getSession_sync f sess w =
     (case sess of
        None \<Rightarrow> w
      | Some s \<Rightarrow>
          (let discordId = opt_prop (user_metadata (s_user s)) ''provider_id'' in
           if truthy discordId then
             (let (profile, w1) =
                    from_select_eq_single (select_ok f) ''discord_id''
                      ''user_id'' (JStr (id_User (s_user s))) w
              in case profile of
                   None \<Rightarrow> w1
                 | Some p \<Rightarrow>
                     if \<not> truthy (get_prop p ''discord_id'') then
                       (let w2 = from_update_eq (update_ok f) [''discord_id'' \<mapsto> discordId]
                                   ''user_id'' (JStr (id_User (s_user s))) w1
                        in w2\<lparr>console := console w2 @ [[JStr ''Discord ID linked:'', discordId]]\<rparr>)
                     else w1)
           else w))"

definition getSession_callback ::
    "faults \<Rightarrow> Session option \<Rightarrow> provider \<times> world \<Rightarrow> provider \<times> world" where
  "getSession_callback f sess st =
     (case st of (p, w) \<Rightarrow>
        (p\<lparr>session := sess, user := map_option s_user sess, loading := False\<rparr>,
         getSession_sync f sess w))"

text \<open>
  The body of the effect: subscribe, then ask for the session. It returns the
  subscription, which the cleanup function of line 90 closes over.
\<close>

definition effect_mount :: "world \<Rightarrow> nat \<times> world" where
  "effect_mount w =
     (let subscription = next_handle w;
          w1 = (issue (OnAuthStateChange subscription) w)
                 \<lparr>active := subscription # active w, next_handle := Suc subscription\<rparr>;
          w2 = issue GetSession w1
      in (subscription, w2))"

definition effect_cleanup :: "nat \<Rightarrow> world \<Rightarrow> world" where
  "effect_cleanup subscription w =
     (issue (Unsubscribe subscription) w)\<lparr>active := removeAll subscription (active w)\<rparr>"

subsection \<open>The actions, lines 93 to 142\<close>

text \<open>
  Each action issues one call and awaits it. The first argument is how the awaited
  promise settles; when it rejects, the action rejects with the same exception and the
  statements after the \<^verbatim>\<open>await\<close> are not reached. \<open>origin\<close> is
  \<^verbatim>\<open>window.location.origin\<close>.
\<close>

definition signUp ::
    "auth_result outcome \<Rightarrow> string \<Rightarrow> string \<Rightarrow> string \<Rightarrow> string \<Rightarrow> world
       \<Rightarrow> (exn + auth_result) \<times> world" where
  "signUp r origin email' password hunterName w =
     (let redirectUrl = origin @ ''/'';
          w1 = issue (AuthSignUp email' password redirectUrl
                        [''hunter_name'' \<mapsto> JStr hunterName]) w
      in case r of
           Resolved error \<Rightarrow> (Inr error, w1)
         | Rejected e \<Rightarrow> (Inl e, w1))"

definition signIn ::
    "auth_result outcome \<Rightarrow> string \<Rightarrow> string \<Rightarrow> world \<Rightarrow> (exn + auth_result) \<times> world" where
  "signIn r email' password w =
     (let w1 = issue (AuthSignInWithPassword email' password) w
      in case r of
           Resolved error \<Rightarrow> (Inr error, w1)
         | Rejected e \<Rightarrow> (Inl e, w1))"

definition signInWithDiscord ::
    "auth_result outcome \<Rightarrow> string \<Rightarrow> world \<Rightarrow> (exn + auth_result) \<times> world" where
  "signInWithDiscord r origin w =
     (let w1 = issue (AuthSignInWithOAuth ''discord'' (origin @ ''/'')) w
      in case r of
           Resolved error \<Rightarrow> (Inr error, w1)
         | Rejected e \<Rightarrow> (Inl e, w1))"

definition resetPassword ::
    "auth_result outcome \<Rightarrow> string \<Rightarrow> string \<Rightarrow> world \<Rightarrow> (exn + auth_result) \<times> world" where
  "resetPassword r origin email' w =
     (let w1 = issue (AuthResetPasswordForEmail email' (origin @ ''/auth'')) w
      in case r of
           Resolved error \<Rightarrow> (Inr error, w1)
         | Rejected e \<Rightarrow> (Inl e, w1))"

definition signOut ::
    "auth_result outcome \<Rightarrow> provider \<times> world \<Rightarrow> (exn + unit) \<times> provider \<times> world" where
  "signOut r st =
     (case st of (p, w) \<Rightarrow>
        (let w1 = issue AuthSignOut w
         in case r of
              Resolved _ \<Rightarrow> (Inr (), (p\<lparr>user := None, session := None\<rparr>, w1))
            | Rejected e \<Rightarrow> (Inl e, (p, w1))))"

subsection \<open>Runs of the provider\<close>

text \<open>
  What reaches a mounted provider, in the order the event loop delivers it: a change
  notification, the answer to \<^verbatim>\<open>getSession\<close>, or the end of a \<^verbatim>\<open>signOut\<close>. Each
  event is one step: the state cells are written at once, and the queries of one run
  of a callback are taken together, not interleaved with those of another run.
\<close>

datatype event =
    Notified faults "Session option"
  | Fetched faults "Session option"
  | SignedOut "auth_result outcome"

fun step :: "event \<Rightarrow> provider \<times> world \<Rightarrow> provider \<times> world" where
  "step (Notified f sess) st = onAuthStateChange_callback f sess st"
| "step (Fetched f sess) st = getSession_callback f sess st"
| "step (SignedOut r) st = snd (signOut r st)"

fun run :: "event list \<Rightarrow> provider \<times> world \<Rightarrow> provider \<times> world" where
  "run [] st = st"
| "run (e # es) st = run es (step e st)"

text \<open>The states a run goes through, the starting state first.\<close>

fun states :: "event list \<Rightarrow> provider \<times> world \<Rightarrow> (provider \<times> world) list" where
  "states [] st = [st]"
| "states (e # es) st = st # states es (step e st)"

fun is_fetched :: "event \<Rightarrow> bool" where
  "is_fetched (Fetched _ _) = True"
| "is_fetched _ = False"

text \<open>
  The life of one provider. The dependency list of the effect is empty, so React runs
  the effect once, after the provider has mounted, and runs the function the effect
  returned once, when the provider is torn down; the events arrive in between.
\<close>

definition lifetime :: "event list \<Rightarrow> world \<Rightarrow> provider \<times> world" where
  "lifetime es w =
     (case effect_mount w of (subscription, w1) \<Rightarrow>
        (case run es (initial_provider, w1) of (p, w2) \<Rightarrow>
           (p, effect_cleanup subscription w2)))"

text \<open>The calls issued between two worlds of one run.\<close>

definition issued :: "world \<Rightarrow> world \<Rightarrow> call list" where
  "issued w w' = drop (length (calls w)) (calls w')"

text \<open>How often a list of flags goes from true to false between neighbours.\<close>

fun falls :: "bool list \<Rightarrow> nat" where
  "falls (a # b # xs) = (if a \<and> \<not> b then 1 else 0) + falls (b # xs)"
| "falls [a] = 0"
| "falls [] = 0"

text \<open>The calls of the effect itself, and the writes to a table.\<close>

fun is_lifecycle :: "call \<Rightarrow> bool" where
  "is_lifecycle (OnAuthStateChange _) = True"
| "is_lifecycle (Unsubscribe _) = True"
| "is_lifecycle GetSession = True"
| "is_lifecycle _ = False"

fun is_update :: "call \<Rightarrow> bool" where
  "is_update (FromUpdateEq _ _ _ _) = True"
| "is_update _ = False"

subsection \<open>Names for the parts of the profile sync\<close>

text \<open>
  \<^verbatim>\<open>session.user.user_metadata?.provider_id\<close>, the rows that
  \<^verbatim>\<open>.eq('user_id', session.user.id)\<close> selects, and the two queries of lines 42 to 46
  and 49 to 52 as they appear in the trace.
\<close>

abbreviation provider_id_of :: "Session \<Rightarrow> jsval" where
  "provider_id_of s \<equiv> opt_prop (user_metadata (s_user s)) ''provider_id''"

abbreviation own_row :: "Session \<Rightarrow> jsobj \<Rightarrow> bool" where
  "own_row s \<equiv> (\<lambda>r. r ''user_id'' = Some (JStr (id_User (s_user s))))"

abbreviation select_call :: "Session \<Rightarrow> call" where
  "select_call s \<equiv>
     FromSelectEqSingle ''profiles'' ''discord_id'' ''user_id'' (JStr (id_User (s_user s)))"

abbreviation update_call :: "Session \<Rightarrow> call" where
  "update_call s \<equiv>
     FromUpdateEq ''profiles'' [''discord_id'' \<mapsto> provider_id_of s]
       ''user_id'' (JStr (id_User (s_user s)))"

subsection \<open>Concrete inputs\<close>

definition all_ok :: faults where
  "all_ok = \<lparr>select_ok = True, update_ok = True\<rparr>"

text \<open>A user who logged in through Discord, with the provider id \<open>Y\<close>.\<close>

definition hunter :: User where
  "hunter = \<lparr>id_User = ''u1'', email = Some ''jin@example.org'',
              user_metadata = Some [''provider_id'' \<mapsto> JStr ''Y'']\<rparr>"

definition hunter_session :: Session where
  "hunter_session = \<lparr>access_token = ''t'', s_user = hunter\<rparr>"

text \<open>The same user with an empty provider id in the metadata.\<close>

definition blank_session :: Session where
  "blank_session = \<lparr>access_token = ''t'',
      s_user = \<lparr>id_User = ''u1'', email = None,
                 user_metadata = Some [''provider_id'' \<mapsto> JStr '''']\<rparr>\<rparr>"

definition row_of :: "string \<Rightarrow> jsval \<Rightarrow> jsobj" where
  "row_of uid d =
     [''user_id'' \<mapsto> JStr uid, ''discord_id'' \<mapsto> d, ''hunter_name'' \<mapsto> JStr ''Jin'']"

definition table_with :: "jsobj list \<Rightarrow> world" where
  "table_with rows =
     \<lparr>profiles = rows, calls = [], console = [], active = [], next_handle = 0\<rparr>"

section \<open>Properties\<close>

subsection \<open>Traces and tables\<close>

lemma calls_issue: "calls (issue c w) = calls w @ [c]"
  by (simp add: issue_def)

lemma profiles_issue: "profiles (issue c w) = profiles w"
  by (simp add: issue_def)

lemma calls_from_update_eq:
  "calls (from_update_eq ok payload k v w) = calls w @ [FromUpdateEq ''profiles'' payload k v]"
  by (simp add: from_update_eq_def issue_def)

lemma profiles_from_update_eq:
  "profiles (from_update_eq ok payload k v w) =
     (if ok then map (\<lambda>r. if r k = Some v then r ++ payload else r) (profiles w)
      else profiles w)"
  by (simp add: from_update_eq_def issue_def)

lemma get_prop_restrict: "get_prop (r |` {k}) k = get_prop r k"
  by (simp add: get_prop_def)

lemma row_of_simps:
  "row_of uid d ''user_id'' = Some (JStr uid)"
  "row_of uid d ''discord_id'' = Some d"
  "get_prop (row_of uid d) ''discord_id'' = d"
  by (simp_all add: row_of_def get_prop_def)

lemma hunter_session_simps:
  "id_User (s_user hunter_session) = ''u1''"
  "provider_id_of hunter_session = JStr ''Y''"
  by (simp_all add: hunter_session_def hunter_def opt_prop_def get_prop_def)

lemma blank_session_simps:
  "id_User (s_user blank_session) = ''u1''"
  "provider_id_of blank_session = JStr ''''"
  by (simp_all add: blank_session_def opt_prop_def get_prop_def)

subsection \<open>The two copies of the profile sync\<close>

text \<open>
  Lines 66 to 87 repeat lines 38 to 55 and add a \<^verbatim>\<open>console.log\<close>: the two copies
  issue the same queries and leave the same table.
\<close>

lemma getSession_sync_profiles:
  "profiles (getSession_sync f sess w) = profiles (onAuthStateChange_sync f sess w)"
  by (simp add: getSession_sync_def onAuthStateChange_sync_def Let_def
      split: option.splits prod.splits)

lemma getSession_sync_calls:
  "calls (getSession_sync f sess w) = calls (onAuthStateChange_sync f sess w)"
  by (simp add: getSession_sync_def onAuthStateChange_sync_def Let_def
      split: option.splits prod.splits)

lemma getSession_sync_active: "active (getSession_sync f sess w) = active w"
  by (simp add: getSession_sync_def from_select_eq_single_def from_update_eq_def
      issue_def Let_def split: option.splits list.splits)

lemma onAuthStateChange_sync_active: "active (onAuthStateChange_sync f sess w) = active w"
  by (simp add: onAuthStateChange_sync_def from_select_eq_single_def from_update_eq_def
      issue_def Let_def split: option.splits list.splits)

text \<open>The three ways the sync can go for a session with a user.\<close>

lemma sync_falsy:
  "\<not> truthy (provider_id_of s) \<Longrightarrow> onAuthStateChange_sync f (Some s) w = w"
  by (simp add: onAuthStateChange_sync_def)

lemma sync_no_data:
  assumes "truthy (provider_id_of s)"
    and "\<not> select_ok f \<or> (\<forall>r. filter (own_row s) (profiles w) \<noteq> [r])"
  shows "onAuthStateChange_sync f (Some s) w = issue (select_call s) w"
  using assms
  by (auto simp: onAuthStateChange_sync_def from_select_eq_single_def Let_def
      split: list.splits)

lemma sync_one_row:
  assumes "truthy (provider_id_of s)" and "select_ok f"
    and "filter (own_row s) (profiles w) = [r]"
  shows "onAuthStateChange_sync f (Some s) w =
     (if truthy (get_prop r ''discord_id'') then issue (select_call s) w
      else from_update_eq (update_ok f) [''discord_id'' \<mapsto> provider_id_of s]
             ''user_id'' (JStr (id_User (s_user s))) (issue (select_call s) w))"
  using assms
  by (simp add: onAuthStateChange_sync_def from_select_eq_single_def Let_def get_prop_restrict)

lemma sync_cases:
  "onAuthStateChange_sync f (Some s) w = w
   \<or> onAuthStateChange_sync f (Some s) w = issue (select_call s) w
   \<or> (\<exists>r. filter (own_row s) (profiles w) = [r] \<and>
        onAuthStateChange_sync f (Some s) w =
          from_update_eq (update_ok f) [''discord_id'' \<mapsto> provider_id_of s]
            ''user_id'' (JStr (id_User (s_user s))) (issue (select_call s) w))"
proof (cases "truthy (provider_id_of s)")
  case False
  then show ?thesis by (simp add: sync_falsy)
next
  case d: True
  show ?thesis
  proof (cases "select_ok f \<and> (\<exists>r. filter (own_row s) (profiles w) = [r])")
    case False
    then have "onAuthStateChange_sync f (Some s) w = issue (select_call s) w"
      using sync_no_data [OF d] by blast
    then show ?thesis by simp
  next
    case True
    then obtain r where r: "filter (own_row s) (profiles w) = [r]" and ok: "select_ok f"
      by blast
    show ?thesis
      using sync_one_row [OF d ok r] r by auto
  qed
qed

lemma only_row:
  assumes "filter P xs = [r]" and "x \<in> set xs"
  shows "P x \<longleftrightarrow> x = r"
proof -
  have "set (filter P xs) = {r}" using assms(1) by simp
  then have "{y \<in> set xs. P y} = {r}" by simp
  with assms(2) show ?thesis by blast
qed

lemma update_one_row:
  assumes "filter (\<lambda>r. r k = Some v) xs = [r]"
  shows "map (\<lambda>x. if x k = Some v then x ++ [c \<mapsto> d] else x) xs
       = map (\<lambda>x. if x = r then r(c \<mapsto> d) else x) xs"
proof (rule map_cong [OF refl])
  fix x assume "x \<in> set xs"
  from only_row [OF assms this]
  show "(if x k = Some v then x ++ [c \<mapsto> d] else x) = (if x = r then r(c \<mapsto> d) else x)"
    by simp
qed

lemma sync_backfill:
  assumes "truthy (provider_id_of s)" and "select_ok f"
    and "filter (own_row s) (profiles w) = [r]"
    and "\<not> truthy (get_prop r ''discord_id'')"
  shows "calls (onAuthStateChange_sync f (Some s) w) = calls w @ [select_call s, update_call s]"
    and "update_ok f \<Longrightarrow> profiles (onAuthStateChange_sync f (Some s) w)
       = map (\<lambda>x. if x = r then r(''discord_id'' \<mapsto> provider_id_of s) else x) (profiles w)"
    and "\<not> update_ok f \<Longrightarrow> profiles (onAuthStateChange_sync f (Some s) w) = profiles w"
  using assms update_one_row [OF assms(3), of "''discord_id''" "provider_id_of s"]
  by (simp_all add: sync_one_row from_update_eq_def issue_def)

lemma update_frame:
  "list_all2 (\<lambda>r r'. (\<forall>c. c \<noteq> k' \<longrightarrow> r' c = r c) \<and> (r k \<noteq> Some v \<longrightarrow> r' = r))
     xs (map (\<lambda>r. if r k = Some v then r ++ [k' \<mapsto> d] else r) xs)"
  by (induction xs) simp_all

lemma frame_refl:
  "list_all2 (\<lambda>r r'. (\<forall>c. c \<noteq> k' \<longrightarrow> r' c = r c) \<and> (r k \<noteq> Some v \<longrightarrow> r' = r)) xs xs"
  by (induction xs) simp_all

subsection \<open>Runs\<close>

lemma run_snoc: "run (es @ [e]) st = step e (run es st)"
  by (induction es arbitrary: st) simp_all

lemma step_keeps_loading:
  "\<not> is_fetched e \<Longrightarrow> loading (fst (step e st)) = loading (fst st)"
  by (cases e; cases st)
     (simp_all add: onAuthStateChange_callback_def signOut_def Let_def split: outcome.splits)

lemma step_loading_stays_false:
  "\<not> loading (fst st) \<Longrightarrow> \<not> loading (fst (step e st))"
  by (cases e; cases st)
     (simp_all add: onAuthStateChange_callback_def getSession_callback_def signOut_def Let_def
        split: outcome.splits)

lemma fetched_clears_loading: "\<not> loading (fst (step (Fetched f sess) st))"
  by (cases st) (simp add: getSession_callback_def)

lemma states_all_false:
  "\<not> loading (fst st) \<Longrightarrow>
     map (loading \<circ> fst) (states es st) = replicate (Suc (length es)) False"
proof (induction es arbitrary: st)
  case Nil
  then show ?case by simp
next
  case (Cons e es)
  from Cons.prems have "\<not> loading (fst (step e st))"
    by (rule step_loading_stays_false)
  with Cons.IH [of "step e st"] Cons.prems show ?case by (simp add: comp_def)
qed

text \<open>As long as the answer to \<^verbatim>\<open>getSession\<close> has not come, \<^verbatim>\<open>loading\<close> keeps its value.\<close>

lemma states_before_fetch:
  "\<forall>e\<in>set es. \<not> is_fetched e \<Longrightarrow>
     map (loading \<circ> fst) (states es st) = replicate (Suc (length es)) (loading (fst st))"
proof (induction es arbitrary: st)
  case Nil
  then show ?case by simp
next
  case (Cons e es)
  from Cons.prems have "loading (fst (step e st)) = loading (fst st)"
    by (simp add: step_keeps_loading)
  with Cons.IH [of "step e st"] Cons.prems show ?case by (simp add: comp_def)
qed

lemma states_until_fetch:
  "\<forall>e\<in>set pre. \<not> is_fetched e \<Longrightarrow> loading (fst st) \<Longrightarrow>
     map (loading \<circ> fst) (states (pre @ Fetched f sess # post) st)
       = replicate (Suc (length pre)) True @ replicate (Suc (length post)) False"
proof (induction pre arbitrary: st)
  case Nil
  have "\<not> loading (fst (step (Fetched f sess) st))"
    by (rule fetched_clears_loading)
  from states_all_false [OF this] Nil.prems show ?case by (simp add: comp_def)
next
  case (Cons e pre)
  from Cons.prems have "loading (fst (step e st))"
    by (simp add: step_keeps_loading)
  with Cons.IH [of "step e st"] Cons.prems show ?case by (simp add: comp_def)
qed

lemma falls_False_Cons: "falls (False # xs) = falls xs"
  by (cases xs) simp_all

lemma falls_all_false: "falls (replicate n False) = 0"
  by (induction n) (simp_all add: falls_False_Cons)

lemma falls_true_then_false:
  "falls (replicate (Suc m) True @ replicate (Suc n) False) = 1"
proof (induction m)
  case 0
  have "falls (False # replicate n False) = 0"
    using falls_all_false [of "Suc n"] by simp
  then show ?case by simp
next
  case (Suc m)
  then show ?case by simp
qed

text \<open>No callback, and no \<^verbatim>\<open>signOut\<close>, subscribes, unsubscribes or asks for the session.\<close>

lemma sync_calls:
  "\<exists>cs. calls (onAuthStateChange_sync f sess w) = calls w @ cs
      \<and> (\<forall>c\<in>set cs. \<not> is_lifecycle c)"
  by (auto simp: onAuthStateChange_sync_def from_select_eq_single_def from_update_eq_def
      issue_def Let_def split: option.splits list.splits)

lemma step_calls:
  "\<exists>cs. calls (snd (step e st)) = calls (snd st) @ cs \<and> (\<forall>c\<in>set cs. \<not> is_lifecycle c)"
proof (cases e)
  case (Notified f sess)
  then show ?thesis
    using sync_calls [of f sess "snd st"]
    by (cases st) (simp add: onAuthStateChange_callback_def)
next
  case (Fetched f sess)
  then show ?thesis
    using sync_calls [of f sess "snd st"]
    by (cases st) (simp add: getSession_callback_def getSession_sync_calls)
next
  case (SignedOut r)
  then show ?thesis
    by (cases st; cases r) (simp_all add: signOut_def issue_def Let_def)
qed

lemma step_active: "active (snd (step e st)) = active (snd st)"
  by (cases e; cases st)
     (simp_all add: onAuthStateChange_callback_def getSession_callback_def
        onAuthStateChange_sync_active getSession_sync_active
        signOut_def issue_def Let_def split: outcome.splits)

lemma run_calls:
  "\<exists>cs. calls (snd (run es st)) = calls (snd st) @ cs \<and> (\<forall>c\<in>set cs. \<not> is_lifecycle c)"
proof (induction es arbitrary: st)
  case Nil
  then show ?case by simp
next
  case (Cons e es)
  obtain cs where cs: "calls (snd (step e st)) = calls (snd st) @ cs"
      "\<forall>c\<in>set cs. \<not> is_lifecycle c"
    using step_calls by blast
  obtain ds where ds: "calls (snd (run es (step e st))) = calls (snd (step e st)) @ ds"
      "\<forall>c\<in>set ds. \<not> is_lifecycle c"
    using Cons.IH by blast
  from cs ds have "calls (snd (run (e # es) st)) = calls (snd st) @ (cs @ ds)
      \<and> (\<forall>c\<in>set (cs @ ds). \<not> is_lifecycle c)"
    by auto
  then show ?case by blast
qed

lemma run_active: "active (snd (run es st)) = active (snd st)"
  by (induction es arbitrary: st) (simp_all add: step_active)

subsection \<open>Inside a provider, and a rejected sign-out\<close>

text \<open>Under a provider \<^verbatim>\<open>useAuth\<close> returns the value of the nearest one.\<close>

lemma useAuth_inside_provider: "useAuth (v # enclosing) = Inr v"
  by (simp add: useAuth_def useContext_def)

text \<open>
  There is no \<^verbatim>\<open>try\<close> around the \<^verbatim>\<open>await\<close> of line 139: were the promise of the
  client to reject, \<^verbatim>\<open>signOut\<close> would reject with it and leave the two cells alone.
\<close>

lemma signOut_rejected: "signOut (Rejected e) (p, w) = (Inl e, p, issue AuthSignOut w)"
  by (simp add: signOut_def Let_def)

subsection \<open>What a processed login does to the world\<close>

text \<open>
  Processing a notification, or the answer to \<^verbatim>\<open>getSession\<close>, runs the sync of that
  callback on the world the event finds.
\<close>

lemma snd_onAuthStateChange_callback:
  "snd (onAuthStateChange_callback f sess (p, w)) = onAuthStateChange_sync f sess w"
  by (simp add: onAuthStateChange_callback_def)

lemma snd_getSession_callback:
  "snd (getSession_callback f sess (p, w)) = getSession_sync f sess w"
  by (simp add: getSession_callback_def)

lemma snd_step_Notified:
  "snd (step (Notified f sess) (p, w)) = onAuthStateChange_sync f sess w"
  by (simp add: snd_onAuthStateChange_callback)

lemma snd_step_Fetched:
  "snd (step (Fetched f sess) (p, w)) = getSession_sync f sess w"
  by (simp add: snd_getSession_callback)

section \<open>The claims\<close>

text \<open>
  C1. After \<^verbatim>\<open>signOut\<close> completes, \<^verbatim>\<open>user\<close> and \<^verbatim>\<open>session\<close> are absent, also when
  the sign-out at the backend fails. The backend reports a failure in the \<^verbatim>\<open>error\<close> of
  the result it resolves with; \<open>signOut\<close> does not look at the result, so for every such
  result it completes and has cleared both cells, and whenever it completes both cells
  are cleared.
\<close>

theorem signOut_clears_user_and_session:
  "(\<forall>error. signOut (Resolved error) (p, w)
       = (Inr (), p\<lparr>user := None, session := None\<rparr>, issue AuthSignOut w))
   \<and> (\<forall>r p' w'. signOut r (p, w) = (Inr (), p', w') \<longrightarrow> user p' = None \<and> session p' = None)"
  by (auto simp: signOut_def Let_def split: outcome.splits)

theorem signOut_clears_user_and_session_witness:
  "signOut (Resolved (Some ''network error''))
      (\<lparr>user = Some hunter, session = Some hunter_session, loading = False\<rparr>, table_with [])
     = (Inr (), \<lparr>user = None, session = None, loading = False\<rparr>,
        issue AuthSignOut (table_with []))
   \<and> user (fst (snd (signOut (Resolved (Some ''network error''))
        (\<lparr>user = Some hunter, session = Some hunter_session, loading = False\<rparr>,
         table_with [])))) = None
   \<and> session (fst (snd (signOut (Resolved (Some ''network error''))
        (\<lparr>user = Some hunter, session = Some hunter_session, loading = False\<rparr>,
         table_with [])))) = None"
  using signOut_clears_user_and_session
    [of "\<lparr>user = Some hunter, session = Some hunter_session, loading = False\<rparr>" "table_with []"]
  by simp

text \<open>
  C2. A profile of the logged-in user whose \<^verbatim>\<open>discord_id\<close> holds a non-empty value is
  never overwritten: whatever provider id the login carries, and whether or not the
  queries go through, neither copy of the sync issues an update, and the table stays as
  it was.
\<close>

theorem sync_keeps_nonempty_discord_id:
  assumes "r \<in> set (profiles w)" and "own_row s r"
    and "truthy (get_prop r ''discord_id'')"
  shows "profiles (onAuthStateChange_sync f (Some s) w) = profiles w
     \<and> filter is_update (issued w (onAuthStateChange_sync f (Some s) w)) = []
     \<and> profiles (getSession_sync f (Some s) w) = profiles w
     \<and> filter is_update (issued w (getSession_sync f (Some s) w)) = []"
proof -
  let ?w' = "onAuthStateChange_sync f (Some s) w"
  have "profiles ?w' = profiles w \<and> filter is_update (issued w ?w') = []"
  proof (cases "truthy (provider_id_of s)")
    case False
    then show ?thesis by (simp add: sync_falsy issued_def)
  next
    case d: True
    show ?thesis
    proof (cases "select_ok f \<and> (\<exists>r'. filter (own_row s) (profiles w) = [r'])")
      case False
      then have "?w' = issue (select_call s) w"
        using sync_no_data [OF d] by blast
      then show ?thesis by (simp add: issue_def issued_def)
    next
      case True
      then obtain r' where r': "filter (own_row s) (profiles w) = [r']" and ok: "select_ok f"
        by blast
      from only_row [OF r' assms(1)] assms(2) have "r = r'" by simp
      with assms(3) have "truthy (get_prop r' ''discord_id'')" by simp
      then have "?w' = issue (select_call s) w"
        by (simp add: sync_one_row [OF d ok r'])
      then show ?thesis by (simp add: issue_def issued_def)
    qed
  qed
  then show ?thesis
    by (simp add: getSession_sync_profiles getSession_sync_calls issued_def)
qed

theorem sync_keeps_nonempty_discord_id_witness:
  "profiles (onAuthStateChange_sync all_ok (Some hunter_session)
       (table_with [row_of ''u1'' (JStr ''X''), row_of ''u2'' JNull]))
     = [row_of ''u1'' (JStr ''X''), row_of ''u2'' JNull]
   \<and> profiles (getSession_sync all_ok (Some hunter_session)
       (table_with [row_of ''u1'' (JStr ''X''), row_of ''u2'' JNull]))
     = [row_of ''u1'' (JStr ''X''), row_of ''u2'' JNull]
   \<and> filter is_update (issued (table_with [row_of ''u1'' (JStr ''X''), row_of ''u2'' JNull])
        (onAuthStateChange_sync all_ok (Some hunter_session)
           (table_with [row_of ''u1'' (JStr ''X''), row_of ''u2'' JNull]))) = []"
proof -
  let ?w = "table_with [row_of ''u1'' (JStr ''X''), row_of ''u2'' JNull]"
  have h1: "row_of ''u1'' (JStr ''X'') \<in> set (profiles ?w)"
    by (simp add: table_with_def row_of_simps hunter_session_simps)
  have h2: "own_row hunter_session (row_of ''u1'' (JStr ''X''))"
    by (simp add: row_of_simps hunter_session_simps)
  have h3: "truthy (get_prop (row_of ''u1'' (JStr ''X'')) ''discord_id'')"
    by (simp add: row_of_simps)
  from sync_keeps_nonempty_discord_id [OF h1 h2 h3, of all_ok] show ?thesis
    by (simp add: table_with_def row_of_simps hunter_session_simps)
qed

text \<open>
  C3. When the logged-in user has a profile row whose \<^verbatim>\<open>discord_id\<close> is empty or
  absent, processing a notification, or the answer to \<^verbatim>\<open>getSession\<close>, whose session
  carries a provider id reads the row and issues the update that sets \<^verbatim>\<open>discord_id\<close>
  to that id on the rows of this user; when the update goes through, that row holds the
  id afterwards and every other row is as before. A row exists for the sync when the
  read of lines 42 to 46 returns it: it is the only row of this user (the table holds
  one profile for a user) and the read goes through.
\<close>

theorem sync_writes_absent_discord_id:
  assumes "filter (own_row s) (profiles w) = [r]"
    and "\<not> truthy (get_prop r ''discord_id'')"
    and "truthy (provider_id_of s)"
    and "select_ok f"
  shows "issued w (snd (step (Notified f (Some s)) (p, w))) = [select_call s, update_call s]
     \<and> issued w (snd (step (Fetched f (Some s)) (p, w))) = [select_call s, update_call s]
     \<and> (update_ok f \<longrightarrow>
          profiles (snd (step (Notified f (Some s)) (p, w)))
            = map (\<lambda>x. if x = r then r(''discord_id'' \<mapsto> provider_id_of s) else x) (profiles w)
        \<and> profiles (snd (step (Fetched f (Some s)) (p, w)))
            = map (\<lambda>x. if x = r then r(''discord_id'' \<mapsto> provider_id_of s) else x) (profiles w))"
  using sync_backfill [OF assms(3) assms(4) assms(1) assms(2)]
  unfolding snd_step_Notified snd_step_Fetched
  by (simp add: issued_def getSession_sync_profiles getSession_sync_calls)

theorem sync_writes_absent_discord_id_witness:
  "profiles (snd (step (Notified all_ok (Some hunter_session))
       (initial_provider, table_with [row_of ''u1'' JNull, row_of ''u2'' JNull])))
     = [(row_of ''u1'' JNull)(''discord_id'' \<mapsto> JStr ''Y''), row_of ''u2'' JNull]
   \<and> profiles (snd (step (Fetched all_ok (Some hunter_session))
       (initial_provider, table_with [row_of ''u1'' JNull, row_of ''u2'' JNull])))
     = [(row_of ''u1'' JNull)(''discord_id'' \<mapsto> JStr ''Y''), row_of ''u2'' JNull]
   \<and> issued (table_with [row_of ''u1'' JNull, row_of ''u2'' JNull])
        (snd (step (Notified all_ok (Some hunter_session))
           (initial_provider, table_with [row_of ''u1'' JNull, row_of ''u2'' JNull])))
     = [FromSelectEqSingle ''profiles'' ''discord_id'' ''user_id'' (JStr ''u1''),
        FromUpdateEq ''profiles'' [''discord_id'' \<mapsto> JStr ''Y''] ''user_id'' (JStr ''u1'')]"
proof -
  let ?w = "table_with [row_of ''u1'' JNull, row_of ''u2'' JNull]"
  have h1: "filter (own_row hunter_session) (profiles ?w) = [row_of ''u1'' JNull]"
    by (simp add: table_with_def row_of_simps hunter_session_simps)
  have h2: "\<not> truthy (get_prop (row_of ''u1'' JNull) ''discord_id'')"
    by (simp add: row_of_simps)
  have h3: "truthy (provider_id_of hunter_session)"
    by (simp add: hunter_session_simps)
  have h4: "select_ok all_ok" and h5: "update_ok all_ok"
    by (simp_all add: all_ok_def)
  have ne: "row_of ''u2'' JNull \<noteq> row_of ''u1'' JNull"
  proof
    assume "row_of ''u2'' JNull = row_of ''u1'' JNull"
    then have "row_of ''u2'' JNull ''user_id'' = row_of ''u1'' JNull ''user_id''" by simp
    then show False by (simp add: row_of_simps)
  qed
  from sync_writes_absent_discord_id [OF h1 h2 h3 h4, of initial_provider] h5 ne
  show ?thesis
    by (simp add: table_with_def row_of_simps hunter_session_simps)
qed

text \<open>
  C4. Once a change notification is processed, \<^verbatim>\<open>user\<close> is the user of the notified
  session, or absent when the notified session is absent, and \<^verbatim>\<open>session\<close> is the
  notified session: for one call of the callback from any state, and at the end of any
  run whose last event is a notification.
\<close>

theorem user_mirrors_notified_session:
  "user (fst (onAuthStateChange_callback f sess st)) = map_option s_user sess
   \<and> session (fst (onAuthStateChange_callback f sess st)) = sess
   \<and> user (fst (run (es @ [Notified f sess]) st)) = map_option s_user sess"
  by (simp add: run_snoc onAuthStateChange_callback_def split: prod.splits)

text \<open>
  C5. \<^verbatim>\<open>loading\<close> starts true; a notification never changes it; in a run in which the
  answer to \<^verbatim>\<open>getSession\<close> arrives, it is true in every state up to that answer and
  false in every state from it on, whatever events come before and after: it goes from
  true to false once, at the first answer.
\<close>

theorem loading_flips_once_at_first_fetch:
  assumes "\<forall>e\<in>set pre. \<not> is_fetched e"
  shows "loading initial_provider
     \<and> loading (fst (onAuthStateChange_callback f' sess' (p, w'))) = loading p
     \<and> map (loading \<circ> fst) (states (pre @ Fetched f sess # post) (initial_provider, w))
         = replicate (Suc (length pre)) True @ replicate (Suc (length post)) False
     \<and> falls (map (loading \<circ> fst) (states (pre @ Fetched f sess # post) (initial_provider, w)))
         = 1"
proof -
  have "loading (fst (initial_provider, w))"
    by (simp add: initial_provider_def)
  from states_until_fetch [OF assms this]
  have "map (loading \<circ> fst) (states (pre @ Fetched f sess # post) (initial_provider, w))
         = replicate (Suc (length pre)) True @ replicate (Suc (length post)) False" .
  moreover have "loading initial_provider"
    by (simp add: initial_provider_def)
  moreover have "loading (fst (onAuthStateChange_callback f' sess' (p, w'))) = loading p"
    by (simp add: onAuthStateChange_callback_def)
  ultimately show ?thesis
    by (simp only: falls_true_then_false simp_thms)
qed

theorem loading_flips_once_at_first_fetch_witness:
  "map (loading \<circ> fst)
     (states ([Notified all_ok (Some hunter_session), SignedOut (Resolved None)]
                @ Fetched all_ok None # [Notified all_ok None, Fetched all_ok None])
        (initial_provider, table_with []))
   = [True, True, True, False, False, False]"
proof -
  have h: "\<forall>e\<in>set [Notified all_ok (Some hunter_session), SignedOut (Resolved None)].
      \<not> is_fetched e"
    by simp
  from loading_flips_once_at_first_fetch [OF h, of all_ok None initial_provider "table_with []"
      all_ok None "[Notified all_ok None, Fetched all_ok None]" "table_with []"]
  show ?thesis
    by (simp add: numeral_eq_Suc)
qed

text \<open>
  C6. \<^verbatim>\<open>useAuth\<close> with no enclosing provider throws: the call itself ends in the
  error, it returns no context.
\<close>

theorem useAuth_outside_provider_throws:
  "useAuth [] = Inl ''useAuth must be used within an AuthProvider''"
  by (simp add: useAuth_def useContext_def)

text \<open>
  C7. \<^verbatim>\<open>signUp\<close> issues one call, the register call, with the email and the password
  it was given, the redirect target \<^verbatim>\<open>origin + "/"\<close> and the metadata object whose only
  entry is \<^verbatim>\<open>hunter_name\<close> with the name it was given.
\<close>

theorem signUp_calls_register:
  "snd (signUp r origin email' password hunterName w)
     = issue (AuthSignUp email' password (origin @ ''/'')
                [''hunter_name'' \<mapsto> JStr hunterName]) w
   \<and> issued w (snd (signUp r origin email' password hunterName w))
     = [AuthSignUp email' password (origin @ ''/'') [''hunter_name'' \<mapsto> JStr hunterName]]
   \<and> dom [''hunter_name'' \<mapsto> JStr hunterName] = {''hunter_name''}"
  by (simp add: signUp_def Let_def issued_def issue_def split: outcome.splits)

text \<open>
  C8. The effect subscribes first and asks for the session second; over the life of a
  provider, whatever events arrive, the calls of the effect are the subscription, the
  request for the session and one release of that subscription, in this order; the
  subscription is active until the teardown and not after it.
\<close>

theorem subscribe_then_fetch_then_release_once:
  "issued w (snd (effect_mount w)) = [OnAuthStateChange (fst (effect_mount w)), GetSession]
   \<and> filter is_lifecycle (issued w (snd (lifetime es w)))
       = [OnAuthStateChange (fst (effect_mount w)), GetSession,
          Unsubscribe (fst (effect_mount w))]
   \<and> fst (effect_mount w) \<in> set (active (snd (run es (initial_provider, snd (effect_mount w)))))
   \<and> fst (effect_mount w) \<notin> set (active (snd (lifetime es w)))"
proof -
  let ?h = "next_handle w"
  let ?m = "snd (effect_mount w)"
  have h: "fst (effect_mount w) = ?h"
    by (simp add: effect_mount_def Let_def)
  have cm: "calls ?m = calls w @ [OnAuthStateChange ?h, GetSession]"
    by (simp add: effect_mount_def Let_def issue_def)
  have am: "active ?m = ?h # active w"
    by (simp add: effect_mount_def Let_def issue_def)
  obtain cs where cs: "calls (snd (run es (initial_provider, ?m))) = calls ?m @ cs"
      "\<forall>c\<in>set cs. \<not> is_lifecycle c"
    using run_calls [of es "(initial_provider, ?m)"] by auto
  have l: "snd (lifetime es w) = effect_cleanup ?h (snd (run es (initial_provider, ?m)))"
    by (simp add: lifetime_def effect_mount_def Let_def split: prod.splits)
  have cl: "calls (snd (lifetime es w))
      = calls w @ [OnAuthStateChange ?h, GetSession] @ cs @ [Unsubscribe ?h]"
    by (simp add: l effect_cleanup_def issue_def cs cm)
  have fcs: "filter is_lifecycle cs = []"
    using cs(2) by (simp add: filter_empty_conv)
  have 1: "issued w ?m = [OnAuthStateChange ?h, GetSession]"
    by (simp add: issued_def cm)
  have 2: "filter is_lifecycle (issued w (snd (lifetime es w)))
       = [OnAuthStateChange ?h, GetSession, Unsubscribe ?h]"
    by (simp add: issued_def cl fcs)
  have 3: "?h \<in> set (active (snd (run es (initial_provider, ?m))))"
    by (simp add: run_active am)
  have 4: "?h \<notin> set (active (snd (lifetime es w)))"
    by (simp add: l effect_cleanup_def issue_def)
  from 1 2 3 4 show ?thesis
    unfolding h by simp
qed

text \<open>
  C9. When the table has no row for the logged-in user, the sync writes nothing. In
  every case the table keeps its rows, one for one: a row of another user is unchanged,
  and a row of this user changes in the column \<^verbatim>\<open>discord_id\<close> at most. The only calls
  the sync issues are the read and the update of \<^verbatim>\<open>discord_id\<close>, both on the rows whose
  \<^verbatim>\<open>user_id\<close> is the user's id; it issues no insert.
\<close>

theorem sync_frame:
  "(filter (own_row s) (profiles w) = [] \<longrightarrow>
       profiles (onAuthStateChange_sync f (Some s) w) = profiles w
     \<and> filter is_update (issued w (onAuthStateChange_sync f (Some s) w)) = []
     \<and> profiles (getSession_sync f (Some s) w) = profiles w
     \<and> filter is_update (issued w (getSession_sync f (Some s) w)) = [])
   \<and> list_all2 (\<lambda>r r'. (\<forall>c. c \<noteq> ''discord_id'' \<longrightarrow> r' c = r c) \<and> (\<not> own_row s r \<longrightarrow> r' = r))
        (profiles w) (profiles (onAuthStateChange_sync f (Some s) w))
   \<and> list_all2 (\<lambda>r r'. (\<forall>c. c \<noteq> ''discord_id'' \<longrightarrow> r' c = r c) \<and> (\<not> own_row s r \<longrightarrow> r' = r))
        (profiles w) (profiles (getSession_sync f (Some s) w))
   \<and> set (issued w (onAuthStateChange_sync f (Some s) w)) \<subseteq> {select_call s, update_call s}
   \<and> set (issued w (getSession_sync f (Some s) w)) \<subseteq> {select_call s, update_call s}"
proof -
  let ?w' = "onAuthStateChange_sync f (Some s) w"
  let ?F = "\<lambda>r r'. (\<forall>c. c \<noteq> ''discord_id'' \<longrightarrow> r' c = r c) \<and> (\<not> own_row s r \<longrightarrow> r' = r)"
  have a: "filter (own_row s) (profiles w) = [] \<longrightarrow>
      profiles ?w' = profiles w \<and> filter is_update (issued w ?w') = []"
    using sync_cases [of f s w]
    by (auto simp: profiles_issue calls_issue issued_def)
  have b: "list_all2 ?F (profiles w) (profiles ?w')"
    using sync_cases [of f s w]
      update_frame [of "''discord_id''" "''user_id''" "JStr (id_User (s_user s))"
        "profiles w" "provider_id_of s"]
      frame_refl [of "''discord_id''" "''user_id''" "JStr (id_User (s_user s))" "profiles w"]
    by (auto simp: profiles_issue profiles_from_update_eq)
  have c: "set (issued w ?w') \<subseteq> {select_call s, update_call s}"
    using sync_cases [of f s w]
    by (auto simp: calls_issue issued_def calls_from_update_eq)
  from a b c show ?thesis
    by (simp add: getSession_sync_profiles getSession_sync_calls issued_def)
qed

theorem sync_frame_witness:
  "profiles (onAuthStateChange_sync all_ok (Some hunter_session) (table_with [row_of ''u2'' JNull]))
     = [row_of ''u2'' JNull]
   \<and> filter is_update (issued (table_with [row_of ''u2'' JNull])
        (onAuthStateChange_sync all_ok (Some hunter_session) (table_with [row_of ''u2'' JNull])))
     = []
   \<and> profiles (getSession_sync all_ok (Some hunter_session) (table_with [row_of ''u2'' JNull]))
     = [row_of ''u2'' JNull]"
proof -
  let ?w = "table_with [row_of ''u2'' JNull]"
  have h: "filter (own_row hunter_session) (profiles ?w) = []"
    by (simp add: table_with_def row_of_simps hunter_session_simps)
  from sync_frame [of hunter_session ?w all_ok] h show ?thesis
    by (simp add: table_with_def row_of_simps hunter_session_simps)
qed

text \<open>
  C10. Both gates of the sync are JavaScript truth tests. Processing a notification, or
  the answer to \<^verbatim>\<open>getSession\<close>, whose provider id is falsy (absent, null, the empty
  string, zero, false) starts no sync: the world is left as it was, with no read and no
  write. A stored \<^verbatim>\<open>discord_id\<close> that is the empty string counts as absent: when the
  read returns that row and the update goes through, the row holds the provider id of
  the login afterwards.
\<close>

theorem sync_gates_are_falsiness:
  "(\<not> truthy (provider_id_of s) \<longrightarrow>
       snd (step (Notified f (Some s)) (p, w)) = w
     \<and> snd (step (Fetched f (Some s)) (p, w)) = w)
   \<and> (truthy (provider_id_of s) \<and> select_ok f \<and> update_ok f
        \<and> filter (own_row s) (profiles w) = [r] \<and> r ''discord_id'' = Some (JStr '''') \<longrightarrow>
       profiles (snd (step (Notified f (Some s)) (p, w)))
         = map (\<lambda>x. if x = r then r(''discord_id'' \<mapsto> provider_id_of s) else x) (profiles w)
     \<and> profiles (snd (step (Fetched f (Some s)) (p, w)))
         = map (\<lambda>x. if x = r then r(''discord_id'' \<mapsto> provider_id_of s) else x) (profiles w))"
proof -
  have 1: "\<not> truthy (provider_id_of s) \<Longrightarrow> getSession_sync f (Some s) w = w"
    by (simp add: getSession_sync_def)
  have 2: "profiles (onAuthStateChange_sync f (Some s) w)
         = map (\<lambda>x. if x = r then r(''discord_id'' \<mapsto> provider_id_of s) else x) (profiles w)"
    if "truthy (provider_id_of s)" "select_ok f" "update_ok f"
      "filter (own_row s) (profiles w) = [r]" "r ''discord_id'' = Some (JStr '''')"
  proof -
    have "\<not> truthy (get_prop r ''discord_id'')"
      using that(5) by (simp add: get_prop_def)
    from sync_backfill(2) [OF that(1) that(2) that(4) this that(3)] show ?thesis .
  qed
  from 1 2 show ?thesis
    unfolding snd_step_Notified snd_step_Fetched
    by (simp add: sync_falsy getSession_sync_profiles)
qed

theorem sync_gates_are_falsiness_witness:
  "snd (step (Notified all_ok (Some blank_session))
        (initial_provider, table_with [row_of ''u1'' JNull]))
     = table_with [row_of ''u1'' JNull]
   \<and> snd (step (Fetched all_ok (Some blank_session))
        (initial_provider, table_with [row_of ''u1'' JNull]))
     = table_with [row_of ''u1'' JNull]
   \<and> profiles (snd (step (Notified all_ok (Some hunter_session))
        (initial_provider, table_with [row_of ''u1'' (JStr '''')])))
     = [(row_of ''u1'' (JStr ''''))(''discord_id'' \<mapsto> JStr ''Y'')]
   \<and> profiles (snd (step (Fetched all_ok (Some hunter_session))
        (initial_provider, table_with [row_of ''u1'' (JStr '''')])))
     = [(row_of ''u1'' (JStr ''''))(''discord_id'' \<mapsto> JStr ''Y'')]"
proof -
  have a: "\<not> truthy (provider_id_of blank_session)"
    by (simp add: blank_session_simps)
  let ?w = "table_with [row_of ''u1'' (JStr '''')]"
  have b: "truthy (provider_id_of hunter_session) \<and> select_ok all_ok \<and> update_ok all_ok
      \<and> filter (own_row hunter_session) (profiles ?w) = [row_of ''u1'' (JStr '''')]
      \<and> row_of ''u1'' (JStr '''') ''discord_id'' = Some (JStr '''')"
    by (simp add: table_with_def all_ok_def row_of_simps hunter_session_simps)
  from sync_gates_are_falsiness [of blank_session all_ok initial_provider
      "table_with [row_of ''u1'' JNull]" "row_of ''u1'' JNull"] a
    sync_gates_are_falsiness [of hunter_session all_ok initial_provider ?w
      "row_of ''u1'' (JStr '''')"] b
  show ?thesis
    by (simp add: table_with_def row_of_simps hunter_session_simps)
qed

end
